theory Spec2Isabelle
  imports Complex_Main "HOL-Library.AList"
begin

section \<open>Python values shared by the models\<close>

text \<open>
  A raised Python exception, with its class name and the text \<open>str(e)\<close>.
  \<open>Exception\<close> stands for an instance of \<open>Exception\<close> or of one of its subclasses
  (what \<open>except Exception\<close> catches); \<open>BaseException\<close> for an instance of a class
  outside \<open>Exception\<close> (\<open>asyncio.CancelledError\<close>, \<open>KeyboardInterrupt\<close>).
\<close>

datatype pyexc = Exception string string | BaseException string string

fun exc_str :: "pyexc \<Rightarrow> string" where
  "exc_str (Exception c m) = m"
| "exc_str (BaseException c m) = m"

fun is_Exception :: "pyexc \<Rightarrow> bool" where
  "is_Exception (Exception c m) = True"
| "is_Exception (BaseException c m) = False"

text \<open>The outcome of running a piece of Python: a returned value or a raised exception.\<close>

datatype 'a outcome = Returned 'a | Raised pyexc

section \<open>Circuit breaker (src/common/reliability.py)\<close>

datatype CircuitState = CLOSED | OPEN | HALF_OPEN

text \<open>
  \<open>CircuitBreakerConfig\<close>. \<open>expected_exception_types\<close> is a tuple of classes used in
  an \<open>except\<close> clause; it is modelled as the test that clause makes on a raised exception.
  Times are seconds, as \<open>time.time()\<close> returns them.
\<close>

record CircuitBreakerConfig =
  failure_threshold :: int
  recovery_timeout :: real
  expected_exception_types :: "pyexc \<Rightarrow> bool"
  name :: string

definition default_config :: CircuitBreakerConfig where
  "default_config =
     \<lparr>failure_threshold = 5, recovery_timeout = 60,
      expected_exception_types = is_Exception, name = ''default''\<rparr>"

record CircuitBreaker =
  config :: CircuitBreakerConfig
  state :: CircuitState
  failure_count :: int
  last_failure_time :: "real option"

text \<open>\<open>CircuitBreaker.__init__\<close>\<close>

definition new_breaker :: "CircuitBreakerConfig \<Rightarrow> CircuitBreaker" where
  "new_breaker c = \<lparr>config = c, state = CLOSED, failure_count = 0, last_failure_time = None\<rparr>"

text \<open>\<open>_should_attempt_reset\<close>; \<open>now\<close> is the value of \<open>time.time()\<close> at the call.\<close>

definition should_attempt_reset :: "CircuitBreaker \<Rightarrow> real \<Rightarrow> bool" where
  "should_attempt_reset b now =
     (case last_failure_time b of
        None \<Rightarrow> True
      | Some t \<Rightarrow> now - t \<ge> recovery_timeout (config b))"

text \<open>\<open>_on_success\<close>\<close>

definition on_success :: "CircuitBreaker \<Rightarrow> CircuitBreaker" where
  "on_success b = b\<lparr>failure_count := 0, state := CLOSED\<rparr>"

text \<open>\<open>_on_failure\<close>; \<open>now\<close> is the value of \<open>time.time()\<close> when the failure is recorded.\<close>

definition on_failure :: "CircuitBreaker \<Rightarrow> real \<Rightarrow> CircuitBreaker" where
  "on_failure b now =
     (let b1 = b\<lparr>failure_count := failure_count b + 1, last_failure_time := Some now\<rparr>
      in if failure_count b1 \<ge> failure_threshold (config b1)
         then b1\<lparr>state := OPEN\<rparr> else b1)"

definition CircuitBreakerOpenException :: "string \<Rightarrow> pyexc" where
  "CircuitBreakerOpenException nm =
     Exception ''CircuitBreakerOpenException'' (''Circuit breaker '' @ nm @ '' is OPEN'')"

text \<open>
  The context manager \<open>call\<close>, in the two halves the \<open>yield\<close> separates.
  \<open>call_enter\<close> is the code before the \<open>yield\<close>: it raises or lets the body run.
  \<open>call_exit\<close> is the code after it, given how the body ended: \<open>_on_success\<close> after a
  return, \<open>_on_failure\<close> after an exception of the expected types; any other exception
  passes through and leaves the breaker as it is.
\<close>

definition call_enter :: "CircuitBreaker \<Rightarrow> real \<Rightarrow> pyexc + CircuitBreaker" where
  "call_enter b now =
     (if state b = OPEN then
        (if should_attempt_reset b now then Inr (b\<lparr>state := HALF_OPEN\<rparr>)
         else Inl (CircuitBreakerOpenException (name (config b))))
      else Inr b)"

definition call_exit :: "CircuitBreaker \<Rightarrow> 'a outcome \<Rightarrow> real \<Rightarrow> CircuitBreaker" where
  "call_exit b out now =
     (case out of
        Returned v \<Rightarrow> on_success b
      | Raised e \<Rightarrow> if expected_exception_types (config b) e then on_failure b now else b)"

text \<open>
  The wrapper of \<open>__call__\<close>: \<open>async with self.call(): return await func(...)\<close>.
  The wrapped operation is a function on the world it acts on (the network, the remote
  agent), so that whether it ran is visible in the world returned. \<open>t0\<close> is the clock on
  entry and \<open>t1\<close> the clock when the operation has ended.
\<close>

definition call :: "CircuitBreaker \<Rightarrow> real \<Rightarrow> real \<Rightarrow> ('w \<Rightarrow> 'a outcome \<times> 'w) \<Rightarrow> 'w
                      \<Rightarrow> 'a outcome \<times> CircuitBreaker \<times> 'w" where
  "call b t0 t1 func w =
     (case call_enter b t0 of
        Inl e \<Rightarrow> (Raised e, b, w)
      | Inr b1 \<Rightarrow> (case func w of (out, w') \<Rightarrow> (out, call_exit b1 out t1, w')))"

text \<open>
  A sequence of calls through one breaker. Each call is given by the clock on entry, the
  clock at its end and how the wrapped operation ends if it runs; a rejected call leaves
  the breaker as it is.
\<close>

fun run_calls :: "CircuitBreaker \<Rightarrow> (real \<times> real \<times> unit outcome) list \<Rightarrow> CircuitBreaker" where
  "run_calls b [] = b"
| "run_calls b ((t0, t1, out) # cs) =
     run_calls (case call_enter b t0 of Inl e \<Rightarrow> b | Inr b1 \<Rightarrow> call_exit b1 out t1) cs"

text \<open>A call whose operation raises an exception that the breaker counts.\<close>

definition counted_failure :: "CircuitBreaker \<Rightarrow> real \<times> real \<times> unit outcome \<Rightarrow> bool" where
  "counted_failure b c =
     (case snd (snd c) of
        Returned v \<Rightarrow> False
      | Raised e \<Rightarrow> expected_exception_types (config b) e)"

definition successful :: "real \<times> real \<times> unit outcome \<Rightarrow> bool" where
  "successful c = (case snd (snd c) of Returned v \<Rightarrow> True | Raised e \<Rightarrow> False)"

text \<open>Concrete breakers and operations used to exercise the model.\<close>

definition tripped_breaker :: CircuitBreaker where
  "tripped_breaker =
     \<lparr>config = default_config, state = OPEN, failure_count = 5, last_failure_time = Some 100\<rparr>"

definition ping :: "nat \<Rightarrow> unit outcome \<times> nat" where
  "ping w = (Returned (), Suc w)"

definition timeout_error :: pyexc where
  "timeout_error = Exception ''TimeoutError'' ''timed out''"

definition failing_calls :: "nat \<Rightarrow> (real \<times> real \<times> unit outcome) list" where
  "failing_calls n = replicate n (0, 1, Raised timeout_error)"

definition almost_tripped :: CircuitBreaker where
  "almost_tripped =
     \<lparr>config = default_config, state = CLOSED, failure_count = 4, last_failure_time = Some 100\<rparr>"

definition success_then_failure :: "(real \<times> real \<times> unit outcome) list" where
  "success_then_failure = [(200, 201, Returned ()), (202, 203, Raised timeout_error)]"

section \<open>Streaming adapter (src/agents/calculator/agent_executor.py)\<close>

text \<open>
  An item yielded by \<open>agent.stream\<close>: the dictionary
  \<open>{content, is_task_complete, require_user_input}\<close>.
\<close>

record item =
  content :: string
  is_task_complete :: bool
  require_user_input :: bool

text \<open>\<open>a2a.types.TaskState\<close>, and what \<open>TaskUpdater\<close> puts on the event queue.\<close>

datatype TaskState = submitted | working | input_required | completed | canceled | failed

datatype queue_event =
    StatusUpdate TaskState "string option" bool
  | ArtifactUpdate string string

text \<open>
  \<open>StatusUpdate s m final\<close> is \<open>update_status(s, new_agent_text_message(m, ...), final)\<close>
  (\<open>m = None\<close> when no message is given, as in \<open>updater.complete()\<close>, which is a final
  update to \<open>completed\<close>); \<open>ArtifactUpdate name text\<close> is
  \<open>add_artifact([Part(root=TextPart(text))], name)\<close>.

  The generator is the list of items it yields and how it ends after the last of them:
  it is exhausted (\<open>None\<close>) or it raises (\<open>Some e\<close>). The \<open>async for\<close> loop of
  \<open>execute\<close> returns the events it emits and the exception that left the loop, if any.
\<close>

fun stream_loop :: "item list \<Rightarrow> pyexc option \<Rightarrow> queue_event list \<times> pyexc option" where
  "stream_loop [] ending = ([], ending)"
| "stream_loop (it # rest) ending =
     (if \<not> is_task_complete it \<and> \<not> require_user_input it then
        (case stream_loop rest ending of
           (evs, r) \<Rightarrow> (StatusUpdate working (Some (content it)) False # evs, r))
      else if require_user_input it then
        ([StatusUpdate input_required (Some (content it)) True], None)
      else
        ([ArtifactUpdate ''calculation_result'' (content it),
          StatusUpdate completed None True], None))"

definition ServerError_InternalError :: pyexc where
  "ServerError_InternalError = Exception ''ServerError'' ''InternalError''"

text \<open>
  The \<open>try\<close> block of \<open>execute\<close> with its handler: an \<open>Exception\<close> from the loop is
  reported as a final \<open>failed\<close> status and re-raised as \<open>ServerError(InternalError())\<close>;
  anything else passes through.
\<close>

definition execute :: "item list \<Rightarrow> pyexc option \<Rightarrow> queue_event list \<times> unit outcome" where
  "execute items ending =
     (case stream_loop items ending of
        (evs, None) \<Rightarrow> (evs, Returned ())
      | (evs, Some e) \<Rightarrow>
          if is_Exception e then
            (evs @ [StatusUpdate failed (Some (''Calculation failed: '' @ exc_str e)) True],
             Raised ServerError_InternalError)
          else (evs, Raised e))"

text \<open>The task as a client sees it after the events: its last state and its artifacts.\<close>

fun task_state :: "TaskState \<Rightarrow> queue_event list \<Rightarrow> TaskState" where
  "task_state s [] = s"
| "task_state s (StatusUpdate s' m f # evs) = task_state s' evs"
| "task_state s (ArtifactUpdate n t # evs) = task_state s evs"

fun artifacts :: "queue_event list \<Rightarrow> (string \<times> string) list" where
  "artifacts [] = []"
| "artifacts (StatusUpdate s m f # evs) = artifacts evs"
| "artifacts (ArtifactUpdate n t # evs) = (n, t) # artifacts evs"

definition progress :: "item \<Rightarrow> bool" where
  "progress it = (\<not> is_task_complete it \<and> \<not> require_user_input it)"

definition working_update :: "item \<Rightarrow> queue_event" where
  "working_update it = StatusUpdate working (Some (content it)) False"

definition calc_items :: "item list" where
  "calc_items =
     [\<lparr>content = ''Calculating...'', is_task_complete = False, require_user_input = False\<rparr>,
      \<lparr>content = ''42'', is_task_complete = True, require_user_input = False\<rparr>]"

definition ask_items :: "item list" where
  "ask_items =
     [\<lparr>content = ''Calculating...'', is_task_complete = False, require_user_input = False\<rparr>,
      \<lparr>content = ''Which numbers?'', is_task_complete = False, require_user_input = True\<rparr>,
      \<lparr>content = ''42'', is_task_complete = True, require_user_input = False\<rparr>]"

definition progress_items :: "item list" where
  "progress_items =
     [\<lparr>content = ''Calculating...'', is_task_complete = False, require_user_input = False\<rparr>]"

section \<open>Properties of the circuit breaker\<close>

lemma config_on_failure [simp]: "config (on_failure b t) = config b"
  by (simp add: on_failure_def Let_def)

lemma config_on_success [simp]: "config (on_success b) = config b"
  by (simp add: on_success_def)

lemma config_call_exit [simp]: "config (call_exit b out t) = config b"
  by (cases out) (simp_all add: call_exit_def)

lemma call_enter_not_open: "state b \<noteq> OPEN \<Longrightarrow> call_enter b t = Inr b"
  by (simp add: call_enter_def)

lemma closed_failure_step:
  assumes "state b = CLOSED" "expected_exception_types (config b) e"
  shows "failure_count (call_exit b (Raised e :: 'a outcome) t) = failure_count b + 1"
    and "state (call_exit b (Raised e :: 'a outcome) t) =
           (if failure_count b + 1 \<ge> failure_threshold (config b) then OPEN else CLOSED)"
  using assms by (simp_all add: call_exit_def on_failure_def Let_def)

lemma counted_failure_config:
  "config b' = config b \<Longrightarrow> counted_failure b' c = counted_failure b c"
  by (simp add: counted_failure_def split: outcome.split)

lemma closed_failures_below_threshold:
  assumes "state b = CLOSED" "\<forall>c\<in>set cs. counted_failure b c"
    and "failure_count b + int (length cs) < failure_threshold (config b)"
  shows "state (run_calls b cs) = CLOSED \<and>
         failure_count (run_calls b cs) = failure_count b + int (length cs) \<and>
         config (run_calls b cs) = config b"
  using assms
proof (induction cs arbitrary: b)
  case Nil
  then show ?case by simp
next
  case (Cons c cs)
  obtain t0 t1 out where c: "c = (t0, t1, out)" by (cases c) auto
  from Cons.prems(2) c obtain e where out: "out = Raised e"
    and exp: "expected_exception_types (config b) e"
    by (cases out) (auto simp: counted_failure_def)
  let ?b = "call_exit b (Raised e :: unit outcome) t1"
  have st: "state ?b = CLOSED" and fc: "failure_count ?b = failure_count b + 1"
    using closed_failure_step [OF Cons.prems(1) exp, of t1] Cons.prems(3) by simp_all
  have cf: "\<forall>c\<in>set cs. counted_failure ?b c"
    using Cons.prems(2) by (simp add: counted_failure_config [of ?b b])
  have lt: "failure_count ?b + int (length cs) < failure_threshold (config ?b)"
    using Cons.prems(3) fc by simp
  have step: "run_calls b (c # cs) = run_calls ?b cs"
    using Cons.prems(1) by (simp add: c out call_enter_not_open)
  from Cons.IH [OF st cf lt] show ?case
    by (simp add: step fc)
qed

lemma run_calls_append: "run_calls b (cs @ ds) = run_calls (run_calls b cs) ds"
  by (induction cs arbitrary: b) auto

text \<open>
  C4. A breaker in state OPEN that recorded its last failure at time \<open>t\<close>: a call
  entered at \<open>t0\<close> with \<open>t0 - t\<close> below the recovery timeout raises
  \<open>CircuitBreakerOpenException\<close>, the breaker is unchanged and the wrapped operation
  has not run (the world is the one before the call); a call entered once the recovery
  timeout has elapsed sets the breaker to HALF_OPEN and runs the operation.
\<close>

theorem open_breaker_rejects_until_recovery:
  assumes "state b = OPEN" and "last_failure_time b = Some t"
  shows "(t0 - t < recovery_timeout (config b) \<longrightarrow>
            call b t0 t1 func w = (Raised (CircuitBreakerOpenException (name (config b))), b, w)) \<and>
         (t0 - t \<ge> recovery_timeout (config b) \<longrightarrow>
            call_enter b t0 = Inr (b\<lparr>state := HALF_OPEN\<rparr>) \<and>
            call b t0 t1 func w =
              (fst (func w), call_exit (b\<lparr>state := HALF_OPEN\<rparr>) (fst (func w)) t1, snd (func w)))"
  using assms
  by (simp add: call_def call_enter_def should_attempt_reset_def split: prod.split)

theorem open_breaker_rejects_until_recovery_witness:
  "state tripped_breaker = OPEN \<and> last_failure_time tripped_breaker = Some 100 \<and>
   (130::real) - 100 < recovery_timeout (config tripped_breaker) \<and>
   call tripped_breaker 130 131 ping 0 =
     (Raised (CircuitBreakerOpenException ''default''), tripped_breaker, 0) \<and>
   (160::real) - 100 \<ge> recovery_timeout (config tripped_breaker) \<and>
   call tripped_breaker 160 161 ping 0 =
     (Returned (), tripped_breaker\<lparr>state := CLOSED, failure_count := 0\<rparr>, Suc 0)"
proof -
  have s: "state tripped_breaker = OPEN" and l: "last_failure_time tripped_breaker = Some 100"
    by (simp_all add: tripped_breaker_def)
  have early: "(130::real) - 100 < recovery_timeout (config tripped_breaker)"
    and late: "(160::real) - 100 \<ge> recovery_timeout (config tripped_breaker)"
    by (simp_all add: tripped_breaker_def default_config_def)
  have n: "name (config tripped_breaker) = ''default''"
    by (simp add: tripped_breaker_def default_config_def)
  have x: "call_exit (tripped_breaker\<lparr>state := HALF_OPEN\<rparr>) (Returned ()) 161 =
             tripped_breaker\<lparr>state := CLOSED, failure_count := 0\<rparr>"
    by (simp add: call_exit_def on_success_def tripped_breaker_def)
  from open_breaker_rejects_until_recovery [OF s l, of 130 131 ping 0] early n
  have a: "call tripped_breaker 130 131 ping 0 =
             (Raised (CircuitBreakerOpenException ''default''), tripped_breaker, 0)"
    by simp
  from open_breaker_rejects_until_recovery [OF s l, of 160 161 ping 0] late x
  have b: "call tripped_breaker 160 161 ping 0 =
             (Returned (), tripped_breaker\<lparr>state := CLOSED, failure_count := 0\<rparr>, Suc 0)"
    by (simp add: ping_def)
  from s l early late a b show ?thesis by blast
qed

lemma closed_failures_reach_threshold:
  assumes "state b = CLOSED" and all: "\<forall>c\<in>set cs. counted_failure b c" and ne: "cs \<noteq> []"
    and eq: "failure_count b + int (length cs) = failure_threshold (config b)"
  shows "state (run_calls b cs) = OPEN \<and>
         failure_count (run_calls b cs) = failure_threshold (config b)"
proof -
  from ne obtain ds d where cs: "cs = ds @ [d]" by (cases cs rule: rev_cases) auto
  obtain t0 t1 out where d: "d = (t0, t1, out)" by (cases d) auto
  from all cs d obtain e' where out: "out = Raised e'"
    and exp: "expected_exception_types (config b) e'"
    by (cases out) (auto simp: counted_failure_def)
  have below: "failure_count b + int (length ds) < failure_threshold (config b)"
    using eq cs by simp
  have pre: "state (run_calls b ds) = CLOSED \<and>
             failure_count (run_calls b ds) = failure_count b + int (length ds) \<and>
             config (run_calls b ds) = config b"
    using closed_failures_below_threshold [OF assms(1) _ below] all cs by simp
  let ?m = "run_calls b ds"
  have exp': "expected_exception_types (config ?m) e'" using exp pre by simp
  have last: "run_calls b cs = call_exit ?m (Raised e' :: unit outcome) t1"
    using pre by (simp add: cs d out run_calls_append call_enter_not_open)
  have "failure_count (call_exit ?m (Raised e' :: unit outcome) t1) = failure_threshold (config b)"
    using closed_failure_step(1) [of ?m e' t1, where ?'a = unit] pre exp' eq cs by simp
  moreover have "state (call_exit ?m (Raised e' :: unit outcome) t1) = OPEN"
    using closed_failure_step(2) [of ?m e' t1, where ?'a = unit] pre exp' eq cs by simp
  ultimately show ?thesis by (simp add: last)
qed

text \<open>
  C5. For a breaker in state CLOSED, a counted failure adds one to \<open>failure_count\<close> and
  opens the breaker exactly when the new count has reached \<open>failure_threshold\<close>; started
  below the threshold, that is exactly when the new count equals it, and otherwise the
  breaker stays CLOSED. A run of counted failures that keeps the count below the
  threshold leaves the breaker CLOSED, and the run that brings the count to the
  threshold leaves it OPEN (five failures with the default configuration).
\<close>

theorem closed_breaker_opens_at_threshold:
  assumes "state b = CLOSED"
  shows "(expected_exception_types (config b) e \<longrightarrow>
           failure_count (call_exit b (Raised e :: unit outcome) t) = failure_count b + 1 \<and>
           (state (call_exit b (Raised e :: unit outcome) t) = OPEN \<longleftrightarrow>
              failure_count (call_exit b (Raised e :: unit outcome) t) \<ge> failure_threshold (config b)) \<and>
           (state (call_exit b (Raised e :: unit outcome) t) \<noteq> OPEN \<longrightarrow>
              state (call_exit b (Raised e :: unit outcome) t) = CLOSED) \<and>
           (failure_count b < failure_threshold (config b) \<longrightarrow>
              (state (call_exit b (Raised e :: unit outcome) t) = OPEN \<longleftrightarrow>
                 failure_count (call_exit b (Raised e :: unit outcome) t) = failure_threshold (config b)))) \<and>
         ((\<forall>c\<in>set cs. counted_failure b c) \<longrightarrow>
           failure_count b + int (length cs) < failure_threshold (config b) \<longrightarrow>
           state (run_calls b cs) = CLOSED \<and>
           failure_count (run_calls b cs) = failure_count b + int (length cs)) \<and>
         ((\<forall>c\<in>set ds. counted_failure b c) \<longrightarrow> ds \<noteq> [] \<longrightarrow>
           failure_count b + int (length ds) = failure_threshold (config b) \<longrightarrow>
           state (run_calls b ds) = OPEN \<and>
           failure_count (run_calls b ds) = failure_threshold (config b))"
proof (intro conjI impI)
  assume exp: "expected_exception_types (config b) e"
  note step = closed_failure_step [OF assms exp, of t, where ?'a = unit]
  show "failure_count (call_exit b (Raised e :: unit outcome) t) = failure_count b + 1"
    by (rule step(1))
  show "state (call_exit b (Raised e :: unit outcome) t) = OPEN \<longleftrightarrow>
          failure_count (call_exit b (Raised e :: unit outcome) t) \<ge> failure_threshold (config b)"
    using step by (simp split: if_splits)
  show "state (call_exit b (Raised e :: unit outcome) t) = CLOSED"
    if "state (call_exit b (Raised e :: unit outcome) t) \<noteq> OPEN"
    using step that by (simp split: if_splits)
  show "state (call_exit b (Raised e :: unit outcome) t) = OPEN \<longleftrightarrow>
          failure_count (call_exit b (Raised e :: unit outcome) t) = failure_threshold (config b)"
    if "failure_count b < failure_threshold (config b)"
    using step that by (simp split: if_splits)
next
  assume "\<forall>c\<in>set cs. counted_failure b c"
    and "failure_count b + int (length cs) < failure_threshold (config b)"
  from closed_failures_below_threshold [OF assms this]
  show "state (run_calls b cs) = CLOSED"
    and "failure_count (run_calls b cs) = failure_count b + int (length cs)"
    by simp_all
next
  assume "\<forall>c\<in>set ds. counted_failure b c" and "ds \<noteq> []"
    and "failure_count b + int (length ds) = failure_threshold (config b)"
  from closed_failures_reach_threshold [OF assms this]
  show "state (run_calls b ds) = OPEN"
    and "failure_count (run_calls b ds) = failure_threshold (config b)"
    by simp_all
qed

lemma new_breaker_default_facts:
  "state (new_breaker default_config) = CLOSED"
  "failure_count (new_breaker default_config) = 0"
  "failure_threshold (config (new_breaker default_config)) = 5"
  "expected_exception_types (config (new_breaker default_config)) timeout_error"
  by (simp_all add: new_breaker_def default_config_def timeout_error_def)

lemma failing_calls_counted:
  "\<forall>c\<in>set (failing_calls n). counted_failure (new_breaker default_config) c"
  by (simp add: failing_calls_def counted_failure_def new_breaker_default_facts)

theorem closed_breaker_opens_at_threshold_witness:
  "state (new_breaker default_config) = CLOSED \<and>
   expected_exception_types (config (new_breaker default_config)) timeout_error \<and>
   list_all (counted_failure (new_breaker default_config)) (failing_calls 4) \<and>
   list_all (counted_failure (new_breaker default_config)) (failing_calls 5) \<and>
   failing_calls 5 \<noteq> [] \<and>
   failure_count (call_exit (new_breaker default_config) (Raised timeout_error :: unit outcome) 7) = 1 \<and>
   state (call_exit (new_breaker default_config) (Raised timeout_error :: unit outcome) 7) = CLOSED \<and>
   state (run_calls (new_breaker default_config) (failing_calls 4)) = CLOSED \<and>
   failure_count (run_calls (new_breaker default_config) (failing_calls 4)) = 4 \<and>
   state (run_calls (new_breaker default_config) (failing_calls 5)) = OPEN \<and>
   failure_count (run_calls (new_breaker default_config) (failing_calls 5)) = 5"
proof -
  note f = new_breaker_default_facts
  have l4: "length (failing_calls 4) = 4" and l5: "length (failing_calls 5) = 5"
    and ne: "failing_calls 5 \<noteq> []"
    by (simp_all add: failing_calls_def)
  note inst = closed_breaker_opens_at_threshold
    [OF f(1), of timeout_error 7 "failing_calls 4" "failing_calls 5"]
  from inst f failing_calls_counted [of 4] failing_calls_counted [of 5] l4 l5 ne
  show ?thesis by (simp add: list_all_iff)
qed

lemma closed_successes:
  assumes "state b = CLOSED" "\<forall>c\<in>set ss. successful c" "ss \<noteq> []"
  shows "state (run_calls b ss) = CLOSED \<and> failure_count (run_calls b ss) = 0 \<and>
         config (run_calls b ss) = config b"
  using assms
proof (induction ss arbitrary: b)
  case Nil
  then show ?case by simp
next
  case (Cons c ss)
  obtain t0 t1 out where c: "c = (t0, t1, out)" by (cases c) auto
  from Cons.prems(2) c obtain v where out: "out = Returned v"
    by (cases out) (auto simp: successful_def)
  let ?b = "on_success b"
  have step: "run_calls b (c # ss) = run_calls ?b ss"
    using Cons.prems(1) by (simp add: c out call_enter_not_open call_exit_def)
  have st: "state ?b = CLOSED" and fc: "failure_count ?b = 0"
    by (simp_all add: on_success_def)
  show ?case
  proof (cases "ss = []")
    case True
    from step True have "run_calls b [c] = ?b" by simp
    then show ?thesis using st fc True by simp
  next
    case False
    from Cons.IH [OF st _ False] Cons.prems(2) show ?thesis by (simp add: step)
  qed
qed

text \<open>
  C6, as stated, fails: with the default threshold 5, a CLOSED breaker holding
  \<open>failure_count = 4 = failure_threshold - 1\<close> that sees one success and then one
  counted failure is CLOSED with \<open>failure_count = 1\<close>, since \<open>_on_success\<close> resets
  the count.
\<close>

theorem success_resets_count_counterexample:
  "state almost_tripped = CLOSED \<and>
   failure_count almost_tripped = failure_threshold (config almost_tripped) - 1 \<and>
   state (run_calls almost_tripped success_then_failure) = CLOSED \<and>
   state (run_calls almost_tripped success_then_failure) \<noteq> OPEN \<and>
   failure_count (run_calls almost_tripped success_then_failure) = 1"
  by (simp add: almost_tripped_def success_then_failure_def default_config_def
      timeout_error_def call_enter_def call_exit_def on_success_def on_failure_def Let_def)

text \<open>
  C6, amended. For a breaker in state CLOSED, whatever its \<open>failure_count\<close>, one or
  more successful calls followed by one counted failure leave \<open>failure_count = 1\<close>;
  the breaker is then OPEN if \<open>failure_threshold \<le> 1\<close> and CLOSED otherwise.
\<close>

theorem closed_breaker_success_then_failure:
  assumes "state b = CLOSED" and "ss \<noteq> []" and "\<forall>c\<in>set ss. successful c"
    and "expected_exception_types (config b) e"
  shows "failure_count (run_calls b (ss @ [(t0, t1, Raised e)])) = 1 \<and>
         state (run_calls b (ss @ [(t0, t1, Raised e)])) =
           (if failure_threshold (config b) \<le> 1 then OPEN else CLOSED)"
proof -
  let ?m = "run_calls b ss"
  have pre: "state ?m = CLOSED \<and> failure_count ?m = 0 \<and> config ?m = config b"
    using closed_successes [OF assms(1) assms(3) assms(2)] .
  have exp: "expected_exception_types (config ?m) e" using assms(4) pre by simp
  have last: "run_calls b (ss @ [(t0, t1, Raised e)]) = call_exit ?m (Raised e :: unit outcome) t1"
    using pre by (simp add: run_calls_append call_enter_not_open)
  from closed_failure_step [of ?m e t1, where ?'a = unit] pre exp
  show ?thesis by (simp add: last)
qed

theorem closed_breaker_success_then_failure_witness:
  "state almost_tripped = CLOSED \<and>
   [(200, 201, Returned ())] \<noteq> ([] :: (real \<times> real \<times> unit outcome) list) \<and>
   list_all successful [(200, 201, Returned ())] \<and>
   expected_exception_types (config almost_tripped) timeout_error \<and>
   failure_count (run_calls almost_tripped ([(200, 201, Returned ())] @ [(202, 203, Raised timeout_error)])) = 1 \<and>
   state (run_calls almost_tripped ([(200, 201, Returned ())] @ [(202, 203, Raised timeout_error)])) = CLOSED"
proof -
  have s: "state almost_tripped = CLOSED"
    and e: "expected_exception_types (config almost_tripped) timeout_error"
    and th: "failure_threshold (config almost_tripped) = 5"
    by (simp_all add: almost_tripped_def default_config_def timeout_error_def)
  have ne: "[(200, 201, Returned ())] \<noteq> ([] :: (real \<times> real \<times> unit outcome) list)" by simp
  have su: "\<forall>c\<in>set [(200 :: real, 201 :: real, Returned ())]. successful c"
    by (simp add: successful_def)
  from closed_breaker_success_then_failure [OF s ne su e, of 202 203] s e th su
  show ?thesis by (simp add: successful_def)
qed

end
